theory Spec2Isabelle
  imports Main "HOL-Library.Sublist"
begin

section \<open>Python values and their display text\<close>

text \<open>
  The booking record is a Python dict with string keys. A value is a string, an integer,
  a boolean or \<open>None\<close>; any other object (a float, say) is carried as the text that
  \<open>str()\<close> gives for it. Text is a list of 8-bit characters, read as Latin-1 code
  points: the character set of the core font (Arial, an alias of Helvetica) that the
  source selects.
\<close>

datatype pyval = PStr string | PInt int | PBool bool | PNone | PObj string

type_synonym booking = "string \<rightharpoonup> pyval"

fun digits :: "nat \<Rightarrow> string" where
  "digits n =
     (if n < 10 then [''0123456789'' ! n]
      else digits (n div 10) @ [''0123456789'' ! (n mod 10)])"

declare digits.simps [simp del]

definition str_int :: "int \<Rightarrow> string" where
  "str_int i = (if i < 0 then CHR ''-'' # digits (nat (- i)) else digits (nat i))"

text \<open>What an f-string replacement field \<open>{v}\<close> produces: \<open>format(v, '')\<close>, that is \<open>str(v)\<close>.\<close>

fun py_str :: "pyval \<Rightarrow> string" where
  "py_str (PStr s) = s"
| "py_str (PInt i) = str_int i"
| "py_str (PBool b) = (if b then ''True'' else ''False'')"
| "py_str PNone = ''None''"
| "py_str (PObj s) = s"

text \<open>\<open>d.get(key, default)\<close>: a lookup that reads the dict and never writes it.\<close>

definition dict_get :: "booking \<Rightarrow> string \<Rightarrow> pyval \<Rightarrow> pyval" where
  "dict_get d k dflt = (case d k of None \<Rightarrow> dflt | Some v \<Rightarrow> v)"


section \<open>Exceptions\<close>

datatype errno = ENOENT | EACCES | EEXIST | ENOTDIR | EISDIR | ENOSPC

text \<open>
  \<open>OSError e f\<close> is the operating-system error with number \<open>e\<close> raised for the file
  name \<open>f\<close>; Python names its subclasses after the number (\<open>ENOENT\<close> is
  FileNotFoundError, \<open>EEXIST\<close> FileExistsError, \<open>EACCES\<close> PermissionError,
  \<open>ENOTDIR\<close> NotADirectoryError, \<open>EISDIR\<close> IsADirectoryError).
\<close>

datatype error = OSError errno string | ValueError string | FPDFException string

fun strerror :: "errno \<Rightarrow> string" where
  "strerror ENOENT = ''[Errno 2] No such file or directory''"
| "strerror EACCES = ''[Errno 13] Permission denied''"
| "strerror EEXIST = ''[Errno 17] File exists''"
| "strerror ENOTDIR = ''[Errno 20] Not a directory''"
| "strerror EISDIR = ''[Errno 21] Is a directory''"
| "strerror ENOSPC = ''[Errno 28] No space left on device''"

text \<open>
  \<open>str(e)\<close>. The file name appears as Python's \<open>repr\<close> prints a name that has no
  quote or escape character in it: between single quotes.
\<close>

fun str_exception :: "error \<Rightarrow> string" where
  "str_exception (OSError e f) =
     (if e = ENOSPC then strerror e else strerror e @ '': '' @ [CHR 0x27] @ f @ [CHR 0x27])"
| "str_exception (ValueError m) = m"
| "str_exception (FPDFException m) = m"


section \<open>The FPDF document object\<close>

text \<open>
  The page is the sequence of drawing calls made on it. \<open>Cell w h txt ln align\<close> is one
  \<open>cell(w, h, txt=txt, ln=ln, align=align)\<close> and \<open>Ln h\<close> one \<open>ln(h)\<close>.
\<close>

datatype item = Cell nat nat string nat string | Ln nat

record fpdf =
  page :: nat
  font :: "(string \<times> nat) option"
  items :: "item list"

definition FPDF :: fpdf where
  "FPDF = \<lparr>page = 0, font = None, items = []\<rparr>"

definition add_page :: "fpdf \<Rightarrow> fpdf" where
  "add_page pdf = pdf\<lparr>page := page pdf + 1\<rparr>"

definition set_font :: "string \<Rightarrow> nat \<Rightarrow> fpdf \<Rightarrow> fpdf" where
  "set_font family sz pdf = pdf\<lparr>font := Some (family, sz)\<rparr>"

definition cell :: "nat \<Rightarrow> nat \<Rightarrow> string \<Rightarrow> nat \<Rightarrow> string \<Rightarrow> fpdf \<Rightarrow> error + fpdf" where
  "cell wd h txt ln_after align pdf =
     (if page pdf = 0 then Inl (FPDFException ''No page open, you need to call add_page() first'')
      else if font pdf = None
        then Inl (FPDFException ''No font set, you need to call set_font() beforehand'')
      else Inr (pdf\<lparr>items := items pdf @ [Cell wd h txt ln_after align]\<rparr>))"

definition ln :: "nat \<Rightarrow> fpdf \<Rightarrow> fpdf" where
  "ln h pdf = pdf\<lparr>items := items pdf @ [Ln h]\<rparr>"

text \<open>The text a reader extracts from the page: the text of each cell, one per line.\<close>

fun item_text :: "item \<Rightarrow> string list" where
  "item_text (Cell wd h txt ln_after align) = [txt]"
| "item_text (Ln h) = []"

definition page_lines :: "fpdf \<Rightarrow> string list" where
  "page_lines pdf = concat (map item_text (items pdf))"

definition extract_text :: "fpdf \<Rightarrow> string" where
  "extract_text pdf = concat (map (\<lambda>l. l @ [CHR 0x0A]) (page_lines pdf))"

text \<open>Sequencing of calls that may raise: the first exception ends the sequence.\<close>

definition and_then :: "error + 'a \<Rightarrow> ('a \<Rightarrow> error + 'b) \<Rightarrow> error + 'b" where
  "and_then r f = (case r of Inl e \<Rightarrow> Inl e | Inr x \<Rightarrow> f x)"


section \<open>The file system\<close>

text \<open>
  A file system without symbolic links. A node is a directory or a regular file, each
  with its write permission; a file holds a complete PDF document, the first bytes of
  one (a write that the device cut short), or other bytes. Nodes are keyed by their
  canonical absolute path, the list of names from the root. \<open>write_fault\<close> is how the
  device answers a write: \<open>None\<close> when it stores everything, \<open>Some n\<close> when it
  fails after \<open>n\<close> bytes. \<open>stdout\<close> holds the lines printed so far.

  Of the permissions, only the one to write is modelled: every directory can be
  searched. A directory or file that the process creates is writable by it, as under
  the usual umask.
\<close>

datatype content = Pdf fpdf | PartialPdf fpdf nat | Bytes string

datatype node = Dir bool | File bool content

record world =
  cwd :: "string list"
  nodes :: "string list \<rightharpoonup> node"
  write_fault :: "nat option"
  stdout :: "string list"

abbreviation sep :: char where
  "sep \<equiv> CHR ''/''"

subsection \<open>posixpath\<close>

text \<open>\<open>s.rfind(c)\<close>: the highest index of \<open>c\<close> in \<open>s\<close>, or \<open>-1\<close>.\<close>

fun rfind :: "string \<Rightarrow> char \<Rightarrow> int" where
  "rfind [] c = - 1"
| "rfind (x # xs) c =
     (let r = rfind xs c in if 0 \<le> r then r + 1 else if x = c then 0 else - 1)"

definition rstrip :: "char \<Rightarrow> string \<Rightarrow> string" where
  "rstrip c s = rev (dropWhile (\<lambda>x. x = c) (rev s))"

definition posix_split :: "string \<Rightarrow> string \<times> string" where
  "posix_split p =
     (let i = nat (rfind p sep + 1);
          head = take i p;
          tail = drop i p
      in (if head \<noteq> [] \<and> head \<noteq> replicate (length head) sep then rstrip sep head else head,
          tail))"

definition dirname :: "string \<Rightarrow> string" where
  "dirname p =
     (let i = nat (rfind p sep + 1);
          head = take i p
      in if head \<noteq> [] \<and> head \<noteq> replicate (length head) sep then rstrip sep head else head)"

subsection \<open>Path resolution\<close>

text \<open>\<open>p.split('/')\<close>: the names between the separators.\<close>

fun components :: "string \<Rightarrow> string list" where
  "components [] = [[]]"
| "components (c # s) =
     (if c = sep then [] # components s
      else (case components s of [] \<Rightarrow> [[c]] | x # xs \<Rightarrow> (c # x) # xs))"

definition start_dir :: "world \<Rightarrow> string \<Rightarrow> string list" where
  "start_dir w p = (if p \<noteq> [] \<and> hd p = sep then [] else cwd w)"

text \<open>
  One step of the lookup from the directory \<open>cur\<close>: an empty name and \<open>.\<close> stay,
  \<open>..\<close> goes to the parent (the root is its own parent), a name goes to the child.
\<close>

definition step :: "string list \<Rightarrow> string \<Rightarrow> string list" where
  "step cur c =
     (if c = [] \<or> c = ''.'' then cur else if c = ''..'' then butlast cur else cur @ [c])"

text \<open>
  The lookup of a list of names: each name is looked up in a node that must be an
  existing directory. The result is the canonical path reached, which need not exist.
\<close>

fun walk :: "(string list \<rightharpoonup> node) \<Rightarrow> string list \<Rightarrow> string list \<Rightarrow> errno + string list" where
  "walk ns cur [] = Inr cur"
| "walk ns cur (c # cs) =
     (case ns cur of
        None \<Rightarrow> Inl ENOENT
      | Some (File fw x) \<Rightarrow> Inl ENOTDIR
      | Some (Dir dw) \<Rightarrow> walk ns (step cur c) cs)"

definition null_byte :: "string \<Rightarrow> bool" where
  "null_byte p = (CHR 0x00 \<in> set p)"

text \<open>\<open>os.stat\<close>: the canonical path and the node that a path names.\<close>

definition stat :: "world \<Rightarrow> string \<Rightarrow> error + (string list \<times> node)" where
  "stat w p =
     (if null_byte p then Inl (ValueError ''embedded null byte'')
      else if p = [] then Inl (OSError ENOENT p)
      else case walk (nodes w) (start_dir w p) (components p) of
             Inl e \<Rightarrow> Inl (OSError e p)
           | Inr q \<Rightarrow> (case nodes w q of
                         None \<Rightarrow> Inl (OSError ENOENT p)
                       | Some n \<Rightarrow> Inr (q, n)))"

text \<open>\<open>os.path.exists\<close>: whether \<open>os.stat\<close> succeeds.\<close>

definition path_exists :: "world \<Rightarrow> string \<Rightarrow> bool" where
  "path_exists w p = (case stat w p of Inl e \<Rightarrow> False | Inr n \<Rightarrow> True)"

text \<open>\<open>os.mkdir\<close>: the parent must be an existing writable directory, the name new.\<close>

definition mkdir :: "string \<Rightarrow> world \<Rightarrow> (error + unit) \<times> world" where
  "mkdir p w =
     (if null_byte p then (Inl (ValueError ''embedded null byte''), w)
      else if p = [] then (Inl (OSError ENOENT p), w)
      else let cs = components (rstrip sep p) in
        case walk (nodes w) (start_dir w p) (butlast cs) of
          Inl e \<Rightarrow> (Inl (OSError e p), w)
        | Inr d \<Rightarrow>
           (case nodes w d of
              None \<Rightarrow> (Inl (OSError ENOENT p), w)
            | Some (File fw x) \<Rightarrow> (Inl (OSError ENOTDIR p), w)
            | Some (Dir dw) \<Rightarrow>
                if last cs = [] \<or> last cs = ''.'' \<or> last cs = ''..''
                   \<or> nodes w (d @ [last cs]) \<noteq> None
                then (Inl (OSError EEXIST p), w)
                else if dw then (Inr (), w\<lparr>nodes := (nodes w)(d @ [last cs] \<mapsto> Dir True)\<rparr>)
                else (Inl (OSError EACCES p), w)))"

text \<open>
  \<open>os.makedirs(name)\<close>, with \<open>exist_ok\<close> left at its default:
  \<^verbatim>\<open>
  head, tail = path.split(name)
  if not tail:
      head, tail = path.split(head)
  if head and tail and not path.exists(head):
      try:
          makedirs(head, exist_ok=exist_ok)
      except FileExistsError:
          pass
      if tail == curdir:
          return
  try:
      mkdir(name, mode)
  except OSError:
      if not exist_ok or not path.isdir(name):
          raise
  \<close>
\<close>

definition makedirs_split :: "string \<Rightarrow> string \<times> string" where
  "makedirs_split name =
     (let (head, tail) = posix_split name
      in if tail = [] then posix_split head else (head, tail))"

fun is_FileExistsError :: "error \<Rightarrow> bool" where
  "is_FileExistsError (OSError e f) = (e = EEXIST)"
| "is_FileExistsError (ValueError m) = False"
| "is_FileExistsError (FPDFException m) = False"

text \<open>The recursion of \<open>makedirs\<close> is on a proper prefix of the name.\<close>

lemma length_rstrip: "length (rstrip c s) \<le> length s"
  unfolding rstrip_def
  by (metis length_dropWhile_le length_rev)

lemma posix_split_length:
  "length (fst (posix_split p)) + length (snd (posix_split p)) \<le> length p"
proof -
  define i where "i = nat (rfind p sep + 1)"
  have "length (rstrip sep (take i p)) \<le> length (take i p)"
    by (rule length_rstrip)
  then show ?thesis
    unfolding posix_split_def Let_def i_def [symmetric]
    by (auto simp: min_def)
qed

lemma makedirs_split_shorter:
  assumes "snd (makedirs_split name) \<noteq> []"
  shows "length (fst (makedirs_split name)) < length name"
proof (cases "snd (posix_split name) = []")
  case True
  then have eq: "makedirs_split name = posix_split (fst (posix_split name))"
    by (simp add: makedirs_split_def case_prod_unfold)
  with assms have "snd (posix_split (fst (posix_split name))) \<noteq> []"
    by simp
  then have "0 < length (snd (posix_split (fst (posix_split name))))"
    by simp
  then have "length (fst (posix_split (fst (posix_split name)))) < length (fst (posix_split name))"
    using posix_split_length [of "fst (posix_split name)"] by linarith
  moreover have "length (fst (posix_split name)) \<le> length name"
    using posix_split_length [of name] by simp
  ultimately show ?thesis
    by (simp add: eq)
next
  case False
  then have eq: "makedirs_split name = posix_split name"
    by (simp add: makedirs_split_def case_prod_unfold)
  from False have "0 < length (snd (posix_split name))"
    by simp
  then show ?thesis
    using posix_split_length [of name] unfolding eq by linarith
qed

function makedirs :: "string \<Rightarrow> world \<Rightarrow> (error + unit) \<times> world" where
  "makedirs name w =
     (if fst (makedirs_split name) \<noteq> [] \<and> snd (makedirs_split name) \<noteq> []
         \<and> \<not> path_exists w (fst (makedirs_split name))
      then (case makedirs (fst (makedirs_split name)) w of
              (Inl e, w') \<Rightarrow>
                if is_FileExistsError e
                then (if snd (makedirs_split name) = ''.'' then (Inr (), w') else mkdir name w')
                else (Inl e, w')
            | (Inr u, w') \<Rightarrow>
                if snd (makedirs_split name) = ''.'' then (Inr (), w') else mkdir name w')
      else mkdir name w)"
  by pat_completeness auto
termination
  by (relation "measure (\<lambda>(name, w). length name)") (simp_all add: makedirs_split_shorter)

declare makedirs.simps [simp del]

subsection \<open>Writing a file\<close>

text \<open>
  \<open>open(p, 'wb')\<close>: the file is created in an existing writable directory, or an
  existing writable regular file is truncated. The handle is the file's canonical path.
\<close>

definition open_wb :: "string \<Rightarrow> world \<Rightarrow> (error + string list) \<times> world" where
  "open_wb p w =
     (if null_byte p then (Inl (ValueError ''embedded null byte''), w)
      else if p = [] then (Inl (OSError ENOENT p), w)
      else let cs = components p in
        case walk (nodes w) (start_dir w p) (butlast cs) of
          Inl e \<Rightarrow> (Inl (OSError e p), w)
        | Inr d \<Rightarrow>
           if last cs = [] then (Inl (OSError EISDIR p), w)
           else
            (case nodes w d of
               None \<Rightarrow> (Inl (OSError ENOENT p), w)
             | Some (File fw x) \<Rightarrow> (Inl (OSError ENOTDIR p), w)
             | Some (Dir dw) \<Rightarrow>
                 if last cs = ''.'' \<or> last cs = ''..'' then (Inl (OSError EISDIR p), w)
                 else
                  (case nodes w (d @ [last cs]) of
                     Some (Dir dw') \<Rightarrow> (Inl (OSError EISDIR p), w)
                   | Some (File fw x) \<Rightarrow>
                       if fw
                       then (Inr (d @ [last cs]),
                             w\<lparr>nodes := (nodes w)(d @ [last cs] \<mapsto> File True (Bytes []))\<rparr>)
                       else (Inl (OSError EACCES p), w)
                   | None \<Rightarrow>
                       if dw
                       then (Inr (d @ [last cs]),
                             w\<lparr>nodes := (nodes w)(d @ [last cs] \<mapsto> File True (Bytes []))\<rparr>)
                       else (Inl (OSError EACCES p), w))))"

text \<open>
  \<open>pdf.output(name, dest)\<close> with \<open>dest = "F"\<close>: the document is serialised and
  written to the file \<open>name\<close>, opened for binary writing. When the device cuts the write
  short, the file keeps the bytes stored so far and the error is raised.
\<close>

definition output_pdf :: "fpdf \<Rightarrow> string \<Rightarrow> string \<Rightarrow> world \<Rightarrow> (error + unit) \<times> world" where
  "output_pdf pdf name dest w =
     (case open_wb name w of
        (Inl e, w') \<Rightarrow> (Inl e, w')
      | (Inr q, w') \<Rightarrow>
         (case write_fault w' of
            None \<Rightarrow> (Inr (), w'\<lparr>nodes := (nodes w')(q \<mapsto> File True (Pdf pdf))\<rparr>)
          | Some n \<Rightarrow>
             (Inl (OSError ENOSPC []),
              w'\<lparr>nodes := (nodes w')(q \<mapsto> File True (PartialPdf pdf n))\<rparr>)))"

definition print :: "string \<Rightarrow> world \<Rightarrow> world" where
  "print s w = w\<lparr>stdout := stdout w @ [s]\<rparr>"


section \<open>generatePdf.py\<close>

text \<open>
  \<^verbatim>\<open>
  def ensure_dir(file_path):
      directory = os.path.dirname(file_path)
      if not os.path.exists(directory):
          os.makedirs(directory)
  \<close>
\<close>

definition ensure_dir :: "string \<Rightarrow> world \<Rightarrow> (error + unit) \<times> world" where
  "ensure_dir file_path w =
     (let directory = dirname file_path
      in if \<not> path_exists w directory then makedirs directory w else (Inr (), w))"

text \<open>
  The page that \<open>generate_simple_booking_pdf\<close> builds between \<open>ensure_dir\<close> and the
  \<open>try\<close> block (lines 18 to 38 of the source): a new document, one page, the font, and
  twelve drawing calls.
\<close>

definition booking_page :: "booking \<Rightarrow> error + fpdf" where
  "booking_page booking_details =
     (let pdf = FPDF;
          pdf = add_page pdf;
          pdf = set_font ''Arial'' 12 pdf
      in
      and_then (cell 200 10 ''Tourtastic - Booking Confirmation'' 1 ''C'' pdf) (\<lambda>pdf.
      let pdf = ln 10 pdf in
      and_then (cell 200 10
        (''Booking ID: '' @ py_str (dict_get booking_details ''bookingId'' (PStr ''N/A'')))
        1 [] pdf) (\<lambda>pdf.
      and_then (cell 200 10
        (''Customer: '' @ py_str (dict_get booking_details ''customerName'' (PStr ''N/A'')))
        1 [] pdf) (\<lambda>pdf.
      and_then (cell 200 10
        (''Email: '' @ py_str (dict_get booking_details ''customerEmail'' (PStr ''N/A'')))
        1 [] pdf) (\<lambda>pdf.
      and_then (cell 200 10
        (''Type: '' @ py_str (dict_get booking_details ''type'' (PStr ''N/A'')))
        1 [] pdf) (\<lambda>pdf.
      and_then (cell 200 10
        (''Destination: '' @ py_str (dict_get booking_details ''destination'' (PStr ''N/A'')))
        1 [] pdf) (\<lambda>pdf.
      and_then (cell 200 10
        (''Date: '' @ py_str (dict_get booking_details ''bookingDate'' (PStr ''N/A'')))
        1 [] pdf) (\<lambda>pdf.
      and_then (cell 200 10
        (''Amount: $'' @ py_str (dict_get booking_details ''amount'' (PStr ''N/A'')))
        1 [] pdf) (\<lambda>pdf.
      and_then (cell 200 10
        (''Status: '' @ py_str (dict_get booking_details ''status'' (PStr ''N/A'')))
        1 [] pdf) (\<lambda>pdf.
      let pdf = ln 10 pdf in
      cell 200 10 ''Thank you for booking with Tourtastic!'' 1 [] pdf))))))))))"

text \<open>
  \<^verbatim>\<open>
  def generate_simple_booking_pdf(booking_details, output_path):
      ensure_dir(output_path)
      ...
      try:
          pdf.output(output_path, "F")
          print(f"PDF generated successfully at {output_path}")
          return output_path
      except Exception as e:
          print(f"Error generating PDF: {e}")
          raise
  \<close>
  An exception of \<open>ensure_dir\<close> or of a drawing call leaves the function at once; one
  of \<open>pdf.output\<close> is printed and raised again.
\<close>

definition generate_simple_booking_pdf ::
  "booking \<Rightarrow> string \<Rightarrow> world \<Rightarrow> (error + string) \<times> world" where
  "generate_simple_booking_pdf booking_details output_path w =
     (case ensure_dir output_path w of
        (Inl e, w1) \<Rightarrow> (Inl e, w1)
      | (Inr u, w1) \<Rightarrow>
         (case booking_page booking_details of
            Inl e \<Rightarrow> (Inl e, w1)
          | Inr pdf \<Rightarrow>
             (case output_pdf pdf output_path ''F'' w1 of
                (Inr u', w2) \<Rightarrow>
                  (Inr output_path, print (''PDF generated successfully at '' @ output_path) w2)
              | (Inl e, w2) \<Rightarrow>
                  (Inl e, print (''Error generating PDF: '' @ str_exception e) w2))))"

text \<open>The content of the regular file that a path names.\<close>

definition read_file :: "world \<Rightarrow> string \<Rightarrow> content option" where
  "read_file w p =
     (case stat w p of
        Inr (q, File fw x) \<Rightarrow> Some x
      | Inr (q, Dir dw) \<Rightarrow> None
      | Inl e \<Rightarrow> None)"

section \<open>Vocabulary of the properties\<close>

text \<open>The eight keys that the source reads from the record.\<close>

definition recognized_keys :: "string list" where
  "recognized_keys = [''bookingId'', ''customerName'', ''customerEmail'', ''type'',
     ''destination'', ''bookingDate'', ''amount'', ''status'']"

text \<open>
  What creating directories may change: the second world has the nodes of the first, and
  new writable directories where the first had nothing.
\<close>

definition only_new_dirs :: "world \<Rightarrow> world \<Rightarrow> bool" where
  "only_new_dirs w w' \<longleftrightarrow>
     cwd w' = cwd w \<and> write_fault w' = write_fault w \<and> stdout w' = stdout w \<and>
     (\<forall>q. nodes w' q = nodes w q \<or> nodes w q = None \<and> nodes w' q = Some (Dir True))"

text \<open>
  What a call that wrote no file may change: new writable directories, nothing else.
\<close>

definition files_untouched :: "world \<Rightarrow> world \<Rightarrow> bool" where
  "files_untouched w w' \<longleftrightarrow>
     (\<forall>q. nodes w' q = nodes w q \<or> nodes w q = None \<and> nodes w' q = Some (Dir True))"

text \<open>
  A world and a record to run the code on: the process works in \<open>/srv\<close>, a writable
  directory with nothing in it, and the record has all eight keys.
\<close>

definition example_world :: world where
  "example_world =
     \<lparr>cwd = [''srv''], nodes = [[] \<mapsto> Dir True, [''srv''] \<mapsto> Dir True],
      write_fault = None, stdout = []\<rparr>"

definition example_booking :: booking where
  "example_booking =
     [''bookingId'' \<mapsto> PStr ''BK123'', ''customerName'' \<mapsto> PStr ''Jane Doe'',
      ''customerEmail'' \<mapsto> PStr ''jane@example.com'', ''type'' \<mapsto> PStr ''flight'',
      ''destination'' \<mapsto> PStr ''Paris'', ''bookingDate'' \<mapsto> PStr ''2025-01-01'',
      ''amount'' \<mapsto> PInt 250, ''status'' \<mapsto> PStr ''confirmed'']"


definition full_disk_world :: world where
  "full_disk_world =
     \<lparr>cwd = [''srv''],
      nodes = [[] \<mapsto> Dir True, [''srv''] \<mapsto> Dir True, [''srv'', ''out''] \<mapsto> Dir True,
               [''srv'', ''out'', ''confirm.pdf''] \<mapsto> File True (Bytes ''an earlier confirmation'')],
      write_fault = Some 512, stdout = []\<rparr>"


section \<open>Path names and lookup\<close>

lemma walk_append:
  "walk ns cur (xs @ ys) = (case walk ns cur xs of Inl e \<Rightarrow> Inl e | Inr q \<Rightarrow> walk ns q ys)"
  by (induction xs arbitrary: cur) (auto split: option.splits node.splits)



lemma walk_preserved:
  assumes "walk ns cur cs = Inr q"
    and "\<And>d dw. ns d = Some (Dir dw) \<Longrightarrow> ns' d = Some (Dir dw)"
  shows "walk ns' cur cs = Inr q"
  using assms(1)
proof (induction cs arbitrary: cur)
  case Nil
  then show ?case by simp
next
  case (Cons c cs)
  from Cons.prems obtain dw where d: "ns cur = Some (Dir dw)"
    by (auto split: option.splits node.splits)
  with Cons.prems have "walk ns (step cur c) cs = Inr q"
    by simp
  then have "walk ns' (step cur c) cs = Inr q"
    by (rule Cons.IH)
  with assms(2) [OF d] show ?case
    by simp
qed

lemma components_not_Nil: "components s \<noteq> []"
  by (induction s) (auto split: list.splits)

lemma components_no_sep: "sep \<notin> set s \<Longrightarrow> components s = [s]"
  by (induction s) auto

lemma components_append_sep:
  "components (a @ sep # b) = components a @ components b"
  by (induction a) (auto simp: components_not_Nil split: list.splits)



lemma rfind_none: "c \<notin> set s \<Longrightarrow> rfind s c = - 1"
  by (induction s) (auto simp: Let_def)

lemma rfind_ge: "- 1 \<le> rfind s c"
  by (induction s) (auto simp: Let_def)

text \<open>The last separator cuts a name into what \<open>rfind\<close> says.\<close>

lemma rfind_last: "c \<notin> set t \<Longrightarrow> rfind (h @ c # t) c = int (length h)"
  by (induction h) (auto simp: Let_def rfind_none)

lemma split_at_last_sep:
  assumes "c \<in> set s"
  obtains h t where "s = h @ c # t" and "c \<notin> set t"
  using assms by (metis split_list_last)

lemma rstrip_decomp: "\<exists>m. s = rstrip c s @ replicate m c"
proof -
  have "rev s = takeWhile (\<lambda>x. x = c) (rev s) @ dropWhile (\<lambda>x. x = c) (rev s)"
    by simp
  moreover have "takeWhile (\<lambda>x. x = c) (rev s) = replicate (length (takeWhile (\<lambda>x. x = c) (rev s))) c"
    by (metis (mono_tags, lifting) replicate_length_same set_takeWhileD)
  ultimately have "rev s = replicate (length (takeWhile (\<lambda>x. x = c) (rev s))) c @ rev (rstrip c s)"
    by (simp add: rstrip_def)
  then have "s = rstrip c s @ replicate (length (takeWhile (\<lambda>x. x = c) (rev s))) c"
    by (metis rev_append rev_replicate rev_rev_ident)
  then show ?thesis ..
qed

lemma rstrip_Nil_iff: "rstrip c s = [] \<longleftrightarrow> s = replicate (length s) c"
proof
  assume "rstrip c s = []"
  with rstrip_decomp [of s c] obtain m where "s = replicate m c" by auto
  then show "s = replicate (length s) c" by (metis length_replicate)
next
  assume "s = replicate (length s) c"
  then have "rev s = replicate (length s) c"
    by (metis rev_replicate)
  then have "dropWhile (\<lambda>x. x = c) (rev s) = []"
    by (metis (full_types) dropWhile_eq_Nil_conv in_set_replicate)
  then show "rstrip c s = []" by (simp add: rstrip_def)
qed

lemma rstrip_snoc: "rstrip c (s @ [c]) = rstrip c s"
  by (simp add: rstrip_def)

text \<open>
  The names before the last one of a path are those of its \<open>dirname\<close>, followed by
  empty names (or, when the head is all separators, the \<open>dirname\<close> has one empty name
  more).
\<close>

lemma dirname_cases:
  assumes "p = h @ sep # t" and "sep \<notin> set t"
  shows "butlast (components p) = components h"
    and "last (components p) = t"
    and "h = replicate (length h) sep \<Longrightarrow> dirname p = h @ [sep]"
    and "h \<noteq> replicate (length h) sep \<Longrightarrow> dirname p = rstrip sep h"
proof -
  have cs: "components p = components h @ [t]"
    using assms by (simp add: components_append_sep components_no_sep)
  show "butlast (components p) = components h" "last (components p) = t"
    by (simp_all add: cs)
  have i: "nat (rfind p sep + 1) = Suc (length h)"
    using assms by (simp add: rfind_last)
  have hd: "take (Suc (length h)) p = h @ [sep]"
    using assms(1) by simp
  show "dirname p = h @ [sep]" if "h = replicate (length h) sep"
  proof -
    have "h @ [sep] = replicate (length (h @ [sep])) sep"
      using that by (metis length_append_singleton replicate_Suc replicate_append_same)
    then show ?thesis
      unfolding dirname_def Let_def i hd by simp
  qed
  show "dirname p = rstrip sep h" if "h \<noteq> replicate (length h) sep"
  proof -
    have "h @ [sep] \<noteq> replicate (length (h @ [sep])) sep"
    proof
      assume "h @ [sep] = replicate (length (h @ [sep])) sep"
      then have "h @ [sep] = replicate (length h) sep @ [sep]"
        by (simp add: replicate_append_same)
      then have "h = replicate (length h) sep" by simp
      with that show False by simp
    qed
    then show ?thesis
      unfolding dirname_def Let_def i hd by (simp add: rstrip_snoc)
  qed
qed

lemma dirname_sep_free: "sep \<notin> set p \<Longrightarrow> dirname p = []"
  by (simp add: dirname_def rfind_none)

lemma dirname_Nil_iff: "dirname p = [] \<longleftrightarrow> sep \<notin> set p"
proof
  assume d: "dirname p = []"
  show "sep \<notin> set p"
  proof
    assume "sep \<in> set p"
    then obtain h t where p: "p = h @ sep # t" and t: "sep \<notin> set t"
      by (rule split_at_last_sep)
    show False
    proof (cases "h = replicate (length h) sep")
      case True
      from dirname_cases(3) [OF p t True] d show False by simp
    next
      case False
      from dirname_cases(4) [OF p t False] d have "rstrip sep h = []" by simp
      with False show False by (simp add: rstrip_Nil_iff)
    qed
  qed
qed (rule dirname_sep_free)



section \<open>What the file-system calls change\<close>

lemma only_new_dirs_refl: "only_new_dirs w w"
  by (simp add: only_new_dirs_def)

lemma only_new_dirs_trans:
  "only_new_dirs w w' \<Longrightarrow> only_new_dirs w' w'' \<Longrightarrow> only_new_dirs w w''"
  unfolding only_new_dirs_def by metis

lemma mkdir_frame: "only_new_dirs w (snd (mkdir p w))"
  by (auto simp: mkdir_def only_new_dirs_def Let_def split: sum.splits option.splits node.splits)

lemma makedirs_frame: "only_new_dirs w (snd (makedirs name w))"
proof (induction name w rule: makedirs.induct)
  case (1 name w)
  show ?case
  proof (cases "fst (makedirs_split name) \<noteq> [] \<and> snd (makedirs_split name) \<noteq> []
      \<and> \<not> path_exists w (fst (makedirs_split name))")
    case True
    obtain r w' where rec: "makedirs (fst (makedirs_split name)) w = (r, w')"
      by (cases "makedirs (fst (makedirs_split name)) w")
    with 1 [OF True] have f: "only_new_dirs w w'" by simp
    have "snd (makedirs name w) = w' \<or> snd (makedirs name w) = snd (mkdir name w')"
      using True rec by (subst makedirs.simps, subst makedirs.simps) (auto split: sum.splits)
    then show ?thesis
      using f mkdir_frame [of w' name] only_new_dirs_trans by auto
  next
    case False
    then have "makedirs name w = mkdir name w"
      by (subst makedirs.simps) auto
    then show ?thesis by (simp add: mkdir_frame)
  qed
qed

lemma ensure_dir_frame: "only_new_dirs w (snd (ensure_dir p w))"
  by (simp add: ensure_dir_def Let_def makedirs_frame only_new_dirs_refl)

lemma open_wb_Inl: "open_wb p w = (Inl e, w') \<Longrightarrow> w' = w"
  by (auto simp: open_wb_def Let_def split: sum.splits option.splits node.splits if_splits)

lemma open_wb_Inr:
  assumes "open_wb p w = (Inr q, w')"
  shows "\<not> null_byte p" and "p \<noteq> []"
    and "\<exists>d dw. walk (nodes w) (start_dir w p) (butlast (components p)) = Inr d
           \<and> nodes w d = Some (Dir dw) \<and> step d (last (components p)) = q"
    and "nodes w q = None \<or> (\<exists>x. nodes w q = Some (File True x))"
    and "w' = w\<lparr>nodes := (nodes w)(q \<mapsto> File True (Bytes []))\<rparr>"
  using assms
  by (auto simp: open_wb_def Let_def step_def split: sum.splits option.splits node.splits if_splits)

lemma start_dir_cong: "cwd w' = cwd w \<Longrightarrow> start_dir w' p = start_dir w p"
  by (simp add: start_dir_def)

lemma stat_written:
  assumes op: "open_wb p w = (Inr q, w')"
    and ns: "nodes w2 = (nodes w)(q \<mapsto> File True c)"
    and cwd: "cwd w2 = cwd w"
  shows "stat w2 p = Inr (q, File True c)"
proof -
  from open_wb_Inr(3) [OF op] obtain d dw
    where wk: "walk (nodes w) (start_dir w p) (butlast (components p)) = Inr d"
      and d: "nodes w d = Some (Dir dw)"
      and q: "step d (last (components p)) = q"
    by blast
  have keep: "nodes w2 x = Some (Dir b)" if "nodes w x = Some (Dir b)" for x b
    using that open_wb_Inr(4) [OF op] by (auto simp: ns)
  have "walk (nodes w2) (start_dir w p) (butlast (components p)) = Inr d"
    using wk keep by (rule walk_preserved)
  moreover have "walk (nodes w2) d [last (components p)] = Inr q"
    using keep [OF d] q by simp
  ultimately have "walk (nodes w2) (start_dir w p) (butlast (components p) @ [last (components p)]) = Inr q"
    by (simp add: walk_append)
  then have "walk (nodes w2) (start_dir w2 p) (components p) = Inr q"
    by (simp add: components_not_Nil start_dir_cong [OF cwd])
  then show ?thesis
    using open_wb_Inr(1,2) [OF op] by (simp add: stat_def ns)
qed

lemma output_pdf_cases:
  assumes "output_pdf pdf p dest w = (res, w2)"
  obtains (open_failed) e where "open_wb p w = (Inl e, w)" "res = Inl e" "w2 = w"
  | (written) q w' where "open_wb p w = (Inr q, w')" "write_fault w = None" "res = Inr ()"
      "w2 = w\<lparr>nodes := (nodes w)(q \<mapsto> File True (Pdf pdf))\<rparr>"
  | (cut_short) q w' n where "open_wb p w = (Inr q, w')" "write_fault w = Some n"
      "res = Inl (OSError ENOSPC [])"
      "w2 = w\<lparr>nodes := (nodes w)(q \<mapsto> File True (PartialPdf pdf n))\<rparr>"
proof (cases "open_wb p w")
  case (Pair r w')
  show ?thesis
  proof (cases r)
    case (Inl e)
    with Pair open_wb_Inl have "w' = w" by blast
    with Pair Inl assms show ?thesis
      by (intro open_failed [of e]) (auto simp: output_pdf_def)
  next
    case (Inr q)
    with Pair have op: "open_wb p w = (Inr q, w')" by simp
    note w' = open_wb_Inr(5) [OF op]
    show ?thesis
    proof (cases "write_fault w")
      case None
      with op assms w' show ?thesis
        by (intro written [of q w']) (auto simp: output_pdf_def)
    next
      case (Some n)
      with op assms w' show ?thesis
        by (intro cut_short [of q w' n]) (auto simp: output_pdf_def)
    qed
  qed
qed

lemma read_file_stat: "stat w p = Inr (q, File fw c) \<Longrightarrow> read_file w p = Some c"
  by (simp add: read_file_def)

lemma print_sel [simp]:
  "nodes (print s w) = nodes w" "cwd (print s w) = cwd w"
  "write_fault (print s w) = write_fault w" "stdout (print s w) = stdout w @ [s]"
  by (simp_all add: print_def)

lemma stat_print [simp]: "stat (print s w) p = stat w p"
  by (simp add: stat_def start_dir_def cong: sum.case_cong)

lemma read_file_print [simp]: "read_file (print s w) p = read_file w p"
  by (simp add: read_file_def)


section \<open>The page and the call\<close>

lemma booking_page_eq:
  "booking_page r = Inr \<lparr>page = 1, font = Some (''Arial'', 12), items =
     [Cell 200 10 ''Tourtastic - Booking Confirmation'' 1 ''C'',
      Ln 10,
      Cell 200 10 (''Booking ID: '' @ py_str (dict_get r ''bookingId'' (PStr ''N/A''))) 1 [],
      Cell 200 10 (''Customer: '' @ py_str (dict_get r ''customerName'' (PStr ''N/A''))) 1 [],
      Cell 200 10 (''Email: '' @ py_str (dict_get r ''customerEmail'' (PStr ''N/A''))) 1 [],
      Cell 200 10 (''Type: '' @ py_str (dict_get r ''type'' (PStr ''N/A''))) 1 [],
      Cell 200 10 (''Destination: '' @ py_str (dict_get r ''destination'' (PStr ''N/A''))) 1 [],
      Cell 200 10 (''Date: '' @ py_str (dict_get r ''bookingDate'' (PStr ''N/A''))) 1 [],
      Cell 200 10 (''Amount: $'' @ py_str (dict_get r ''amount'' (PStr ''N/A''))) 1 [],
      Cell 200 10 (''Status: '' @ py_str (dict_get r ''status'' (PStr ''N/A''))) 1 [],
      Ln 10,
      Cell 200 10 ''Thank you for booking with Tourtastic!'' 1 []]\<rparr>"
  by (simp add: booking_page_def FPDF_def add_page_def set_font_def cell_def ln_def and_then_def)

lemma booking_page_Inr: "booking_page r = Inr (projr (booking_page r))"
  by (simp add: booking_page_eq)

lemma generate_unfold:
  "generate_simple_booking_pdf r p w =
     (case ensure_dir p w of
        (Inl e, w1) \<Rightarrow> (Inl e, w1)
      | (Inr u, w1) \<Rightarrow>
         (case output_pdf (projr (booking_page r)) p ''F'' w1 of
            (Inr u', w2) \<Rightarrow> (Inr p, print (''PDF generated successfully at '' @ p) w2)
          | (Inl e, w2) \<Rightarrow> (Inl e, print (''Error generating PDF: '' @ str_exception e) w2)))"
  unfolding generate_simple_booking_pdf_def
  by (subst booking_page_Inr) (simp split: prod.splits sum.splits)

lemma generate_Inr:
  assumes "fst (generate_simple_booking_pdf r p w) = Inr x"
  obtains w1 q wo where "ensure_dir p w = (Inr (), w1)"
    and "open_wb p w1 = (Inr q, wo)" and "write_fault w1 = None"
    and "x = p"
    and "snd (generate_simple_booking_pdf r p w) =
           print (''PDF generated successfully at '' @ p)
             (w1\<lparr>nodes := (nodes w1)(q \<mapsto> File True (Pdf (projr (booking_page r))))\<rparr>)"
proof -
  obtain r1 w1 where e: "ensure_dir p w = (r1, w1)"
    by (cases "ensure_dir p w")
  obtain r2 w2 where o: "output_pdf (projr (booking_page r)) p ''F'' w1 = (r2, w2)"
    by (cases "output_pdf (projr (booking_page r)) p ''F'' w1")
  have r1: "r1 = Inr ()"
  proof (cases r1)
    case (Inl err)
    with assms e show ?thesis by (simp add: generate_unfold)
  qed simp
  have g: "generate_simple_booking_pdf r p w =
      (case r2 of Inr u' \<Rightarrow> (Inr p, print (''PDF generated successfully at '' @ p) w2)
       | Inl err \<Rightarrow> (Inl err, print (''Error generating PDF: '' @ str_exception err) w2))"
    by (simp add: generate_unfold e r1 o split: sum.splits)
  have r2: "r2 = Inr ()"
  proof (cases r2)
    case (Inl err)
    with assms g show ?thesis by simp
  qed simp
  from assms g r2 have x: "x = p" by simp
  from o show ?thesis
  proof (cases rule: output_pdf_cases)
    case (open_failed err)
    with r2 show ?thesis by simp
  next
    case (written q w')
    have "snd (generate_simple_booking_pdf r p w) =
           print (''PDF generated successfully at '' @ p)
             (w1\<lparr>nodes := (nodes w1)(q \<mapsto> File True (Pdf (projr (booking_page r))))\<rparr>)"
      by (simp add: g r2 written(4))
    with e r1 written(1,2) x show ?thesis
      by (intro that [of w1 q w']) simp_all
  next
    case (cut_short q w' n)
    with r2 show ?thesis by simp
  qed
qed

lemma sublist_line:
  "l \<in> set ls \<Longrightarrow> sublist l (concat (map (\<lambda>l. l @ [c]) ls))"
proof -
  assume "l \<in> set ls"
  then obtain xs ys where "ls = xs @ l # ys"
    by (auto simp: in_set_conv_decomp)
  then have "concat (map (\<lambda>l. l @ [c]) ls) =
      concat (map (\<lambda>l. l @ [c]) xs) @ l @ (c # concat (map (\<lambda>l. l @ [c]) ys))"
    by simp
  then show ?thesis
    unfolding sublist_def by blast
qed

lemma generate_Inr_read:
  assumes "fst (generate_simple_booking_pdf r p w) = Inr x"
  shows "read_file (snd (generate_simple_booking_pdf r p w)) p = Some (Pdf (projr (booking_page r)))"
proof -
  from assms obtain w1 q wo where op: "open_wb p w1 = (Inr q, wo)"
    and s: "snd (generate_simple_booking_pdf r p w) =
           print (''PDF generated successfully at '' @ p)
             (w1\<lparr>nodes := (nodes w1)(q \<mapsto> File True (Pdf (projr (booking_page r))))\<rparr>)"
    by (rule generate_Inr)
  have "stat (w1\<lparr>nodes := (nodes w1)(q \<mapsto> File True (Pdf (projr (booking_page r))))\<rparr>) p
      = Inr (q, File True (Pdf (projr (booking_page r))))"
    using op by (rule stat_written) simp_all
  then show ?thesis
    unfolding s by (simp add: read_file_stat)
qed

lemma page_lines_eq:
  "page_lines (projr (booking_page r)) =
     [''Tourtastic - Booking Confirmation'',
      ''Booking ID: '' @ py_str (dict_get r ''bookingId'' (PStr ''N/A'')),
      ''Customer: '' @ py_str (dict_get r ''customerName'' (PStr ''N/A'')),
      ''Email: '' @ py_str (dict_get r ''customerEmail'' (PStr ''N/A'')),
      ''Type: '' @ py_str (dict_get r ''type'' (PStr ''N/A'')),
      ''Destination: '' @ py_str (dict_get r ''destination'' (PStr ''N/A'')),
      ''Date: '' @ py_str (dict_get r ''bookingDate'' (PStr ''N/A'')),
      ''Amount: $'' @ py_str (dict_get r ''amount'' (PStr ''N/A'')),
      ''Status: '' @ py_str (dict_get r ''status'' (PStr ''N/A'')),
      ''Thank you for booking with Tourtastic!'']"
  by (simp add: booking_page_eq page_lines_def)

lemma row_in_text:
  assumes "r k = Some v"
    and "lab @ py_str (dict_get r k (PStr ''N/A'')) \<in> set (page_lines (projr (booking_page r)))"
  shows "sublist (lab @ py_str v) (extract_text (projr (booking_page r)))"
proof -
  from assms(1) have "dict_get r k (PStr ''N/A'') = v"
    by (simp add: dict_get_def)
  with assms(2) show ?thesis
    unfolding extract_text_def by (metis sublist_line)
qed

text \<open>Running the code on the example world.\<close>

lemmas eval_defs =
  ensure_dir_def dirname_def Let_def path_exists_def stat_def null_byte_def start_dir_def
  step_def makedirs.simps makedirs_split_def posix_split_def rstrip_def mkdir_def
  output_pdf_def open_wb_def print_def read_file_def

lemma example_call_succeeds:
  "fst (generate_simple_booking_pdf r ''out/confirm.pdf'' example_world) = Inr ''out/confirm.pdf''"
  by (simp add: generate_unfold example_world_def eval_defs)

text \<open>The directory step on a path without a separator.\<close>

lemma path_exists_empty: "\<not> path_exists w []"
  by (simp add: path_exists_def stat_def null_byte_def)

lemma makedirs_empty: "makedirs [] w = (Inl (OSError ENOENT []), w)"
  by (simp add: makedirs.simps makedirs_split_def posix_split_def mkdir_def null_byte_def)

lemma ensure_dir_bare: "sep \<notin> set p \<Longrightarrow> ensure_dir p w = (Inl (OSError ENOENT []), w)"
  by (simp add: ensure_dir_def dirname_sep_free path_exists_empty makedirs_empty)

lemma generate_bare:
  "sep \<notin> set p \<Longrightarrow> generate_simple_booking_pdf r p w = (Inl (OSError ENOENT []), w)"
  by (simp add: generate_unfold ensure_dir_bare)







text \<open>The three ways in which the call ends.\<close>

lemma generate_cases:
  obtains (dir_failed) e w1 where "ensure_dir p w = (Inl e, w1)"
      "generate_simple_booking_pdf r p w = (Inl e, w1)"
  | (succeeded) w1 w2 where "ensure_dir p w = (Inr (), w1)"
      "output_pdf (projr (booking_page r)) p ''F'' w1 = (Inr (), w2)"
      "generate_simple_booking_pdf r p w
         = (Inr p, print (''PDF generated successfully at '' @ p) w2)"
  | (write_failed) e w1 w2 where "ensure_dir p w = (Inr (), w1)"
      "output_pdf (projr (booking_page r)) p ''F'' w1 = (Inl e, w2)"
      "generate_simple_booking_pdf r p w
         = (Inl e, print (''Error generating PDF: '' @ str_exception e) w2)"
proof (cases "ensure_dir p w")
  case (Pair r1 w1)
  show ?thesis
  proof (cases r1)
    case (Inl e)
    with Pair show ?thesis
      by (intro dir_failed [of e w1]) (simp_all add: generate_unfold)
  next
    case (Inr u)
    with Pair have e: "ensure_dir p w = (Inr (), w1)" by simp
    show ?thesis
    proof (cases "output_pdf (projr (booking_page r)) p ''F'' w1")
      case o: (Pair r2 w2)
      show ?thesis
      proof (cases r2)
        case (Inl err)
        with e o show ?thesis
          by (intro write_failed [of w1 err w2]) (simp_all add: generate_unfold)
      next
        case (Inr u')
        with e o show ?thesis
          by (intro succeeded [of w1 w2]) (simp_all add: generate_unfold)
      qed
    qed
  qed
qed

lemma only_new_dirs_files: "only_new_dirs w w' \<Longrightarrow> files_untouched w w'"
  by (simp add: only_new_dirs_def files_untouched_def)

lemma files_untouched_print [simp]: "files_untouched w (print s w') = files_untouched w w'"
  by (simp add: files_untouched_def)


lemma full_disk_ensure_dir:
  "ensure_dir ''out/confirm.pdf'' full_disk_world = (Inr (), full_disk_world)"
  by (simp add: full_disk_world_def eval_defs)

lemma full_disk_output:
  "output_pdf pdf ''out/confirm.pdf'' ''F'' full_disk_world
     = (Inl (OSError ENOSPC []),
        full_disk_world\<lparr>nodes := (nodes full_disk_world)
          ([''srv'', ''out'', ''confirm.pdf''] \<mapsto> File True (PartialPdf pdf 512))\<rparr>)"
  by (simp add: full_disk_world_def eval_defs)

section \<open>The claims\<close>

text \<open>
  C1. Whenever the call succeeds, the file that the output path names holds the page
  made of, in this order: the title cell, centred; a line break; the eight rows Booking
  ID, Customer, Email, Type, Destination, Date, Amount (after a dollar sign) and Status,
  left-aligned, each the label followed by the text of the record's value or by
  \<open>N/A\<close>; a line break; and the thank-you cell. For each of the eight keys that the
  record has, the text extracted from the page contains the label followed by the text
  of the value.
\<close>

theorem rendered_page_layout:
  assumes "fst (generate_simple_booking_pdf r p w) = Inr x"
  shows "\<exists>pdf. read_file (snd (generate_simple_booking_pdf r p w)) p = Some (Pdf pdf)
    \<and> items pdf =
        [Cell 200 10 ''Tourtastic - Booking Confirmation'' 1 ''C'',
         Ln 10,
         Cell 200 10 (''Booking ID: '' @ py_str (dict_get r ''bookingId'' (PStr ''N/A''))) 1 [],
         Cell 200 10 (''Customer: '' @ py_str (dict_get r ''customerName'' (PStr ''N/A''))) 1 [],
         Cell 200 10 (''Email: '' @ py_str (dict_get r ''customerEmail'' (PStr ''N/A''))) 1 [],
         Cell 200 10 (''Type: '' @ py_str (dict_get r ''type'' (PStr ''N/A''))) 1 [],
         Cell 200 10 (''Destination: '' @ py_str (dict_get r ''destination'' (PStr ''N/A''))) 1 [],
         Cell 200 10 (''Date: '' @ py_str (dict_get r ''bookingDate'' (PStr ''N/A''))) 1 [],
         Cell 200 10 (''Amount: $'' @ py_str (dict_get r ''amount'' (PStr ''N/A''))) 1 [],
         Cell 200 10 (''Status: '' @ py_str (dict_get r ''status'' (PStr ''N/A''))) 1 [],
         Ln 10,
         Cell 200 10 ''Thank you for booking with Tourtastic!'' 1 []]
    \<and> (\<forall>v. r ''bookingId'' = Some v \<longrightarrow> sublist (''Booking ID: '' @ py_str v) (extract_text pdf))
    \<and> (\<forall>v. r ''customerName'' = Some v \<longrightarrow> sublist (''Customer: '' @ py_str v) (extract_text pdf))
    \<and> (\<forall>v. r ''customerEmail'' = Some v \<longrightarrow> sublist (''Email: '' @ py_str v) (extract_text pdf))
    \<and> (\<forall>v. r ''type'' = Some v \<longrightarrow> sublist (''Type: '' @ py_str v) (extract_text pdf))
    \<and> (\<forall>v. r ''destination'' = Some v \<longrightarrow> sublist (''Destination: '' @ py_str v) (extract_text pdf))
    \<and> (\<forall>v. r ''bookingDate'' = Some v \<longrightarrow> sublist (''Date: '' @ py_str v) (extract_text pdf))
    \<and> (\<forall>v. r ''amount'' = Some v \<longrightarrow> sublist (''Amount: $'' @ py_str v) (extract_text pdf))
    \<and> (\<forall>v. r ''status'' = Some v \<longrightarrow> sublist (''Status: '' @ py_str v) (extract_text pdf))"
proof (intro exI conjI allI impI)
  show "read_file (snd (generate_simple_booking_pdf r p w)) p = Some (Pdf (projr (booking_page r)))"
    using assms by (rule generate_Inr_read)
  show "items (projr (booking_page r)) =
        [Cell 200 10 ''Tourtastic - Booking Confirmation'' 1 ''C'',
         Ln 10,
         Cell 200 10 (''Booking ID: '' @ py_str (dict_get r ''bookingId'' (PStr ''N/A''))) 1 [],
         Cell 200 10 (''Customer: '' @ py_str (dict_get r ''customerName'' (PStr ''N/A''))) 1 [],
         Cell 200 10 (''Email: '' @ py_str (dict_get r ''customerEmail'' (PStr ''N/A''))) 1 [],
         Cell 200 10 (''Type: '' @ py_str (dict_get r ''type'' (PStr ''N/A''))) 1 [],
         Cell 200 10 (''Destination: '' @ py_str (dict_get r ''destination'' (PStr ''N/A''))) 1 [],
         Cell 200 10 (''Date: '' @ py_str (dict_get r ''bookingDate'' (PStr ''N/A''))) 1 [],
         Cell 200 10 (''Amount: $'' @ py_str (dict_get r ''amount'' (PStr ''N/A''))) 1 [],
         Cell 200 10 (''Status: '' @ py_str (dict_get r ''status'' (PStr ''N/A''))) 1 [],
         Ln 10,
         Cell 200 10 ''Thank you for booking with Tourtastic!'' 1 []]"
    by (simp add: booking_page_eq)
qed (erule row_in_text, simp add: page_lines_eq)+

theorem rendered_page_layout_witness:
  "fst (generate_simple_booking_pdf example_booking ''out/confirm.pdf'' example_world)
     = Inr ''out/confirm.pdf''
   \<and> (\<exists>pdf. read_file (snd (generate_simple_booking_pdf example_booking ''out/confirm.pdf''
                 example_world)) ''out/confirm.pdf'' = Some (Pdf pdf)
        \<and> page_lines pdf =
            [''Tourtastic - Booking Confirmation'', ''Booking ID: BK123'', ''Customer: Jane Doe'',
             ''Email: jane@example.com'', ''Type: flight'', ''Destination: Paris'',
             ''Date: 2025-01-01'', ''Amount: $250'', ''Status: confirmed'',
             ''Thank you for booking with Tourtastic!'']
        \<and> sublist ''Booking ID: BK123'' (extract_text pdf)
        \<and> sublist ''Amount: $250'' (extract_text pdf)
        \<and> sublist ''Status: confirmed'' (extract_text pdf))"
proof -
  have h: "fst (generate_simple_booking_pdf example_booking ''out/confirm.pdf'' example_world)
     = Inr ''out/confirm.pdf''"
    by (rule example_call_succeeds)
  from rendered_page_layout [OF h] obtain pdf
    where "read_file (snd (generate_simple_booking_pdf example_booking ''out/confirm.pdf''
                 example_world)) ''out/confirm.pdf'' = Some (Pdf pdf)"
      and "items pdf =
        [Cell 200 10 ''Tourtastic - Booking Confirmation'' 1 ''C'',
         Ln 10,
         Cell 200 10 (''Booking ID: '' @ py_str (dict_get example_booking ''bookingId'' (PStr ''N/A''))) 1 [],
         Cell 200 10 (''Customer: '' @ py_str (dict_get example_booking ''customerName'' (PStr ''N/A''))) 1 [],
         Cell 200 10 (''Email: '' @ py_str (dict_get example_booking ''customerEmail'' (PStr ''N/A''))) 1 [],
         Cell 200 10 (''Type: '' @ py_str (dict_get example_booking ''type'' (PStr ''N/A''))) 1 [],
         Cell 200 10 (''Destination: '' @ py_str (dict_get example_booking ''destination'' (PStr ''N/A''))) 1 [],
         Cell 200 10 (''Date: '' @ py_str (dict_get example_booking ''bookingDate'' (PStr ''N/A''))) 1 [],
         Cell 200 10 (''Amount: $'' @ py_str (dict_get example_booking ''amount'' (PStr ''N/A''))) 1 [],
         Cell 200 10 (''Status: '' @ py_str (dict_get example_booking ''status'' (PStr ''N/A''))) 1 [],
         Ln 10,
         Cell 200 10 ''Thank you for booking with Tourtastic!'' 1 []]"
      and "\<forall>v. example_booking ''bookingId'' = Some v \<longrightarrow> sublist (''Booking ID: '' @ py_str v) (extract_text pdf)"
      and "\<forall>v. example_booking ''amount'' = Some v \<longrightarrow> sublist (''Amount: $'' @ py_str v) (extract_text pdf)"
      and "\<forall>v. example_booking ''status'' = Some v \<longrightarrow> sublist (''Status: '' @ py_str v) (extract_text pdf)"
    by blast
  then show ?thesis
    using h
    by (intro conjI exI [of _ pdf])
       (simp_all add: example_booking_def page_lines_def dict_get_def str_int_def digits.simps)
qed



text \<open>
  C3. The code at the input \<open>confirm.pdf\<close>, run in the existing writable directory
  \<open>/srv\<close>: the directory of the output file is there (\<open>.\<close> names it), yet
  \<open>ensure_dir\<close> raises FileNotFoundError and the call with it, changing nothing. The
  same file named \<open>./confirm.pdf\<close> is written.
\<close>

theorem ensure_dir_raises_in_existing_directory:
  "stat example_world ''.'' = Inr ([''srv''], Dir True)
   \<and> ensure_dir ''confirm.pdf'' example_world = (Inl (OSError ENOENT []), example_world)
   \<and> generate_simple_booking_pdf example_booking ''confirm.pdf'' example_world
       = (Inl (OSError ENOENT []), example_world)
   \<and> fst (generate_simple_booking_pdf example_booking ''./confirm.pdf'' example_world)
       = Inr ''./confirm.pdf''"
proof (intro conjI)
  show "stat example_world ''.'' = Inr ([''srv''], Dir True)"
    by (simp add: example_world_def eval_defs)
  show "ensure_dir ''confirm.pdf'' example_world = (Inl (OSError ENOENT []), example_world)"
    by (rule ensure_dir_bare) simp
  show "generate_simple_booking_pdf example_booking ''confirm.pdf'' example_world
       = (Inl (OSError ENOENT []), example_world)"
    by (rule generate_bare) simp
  show "fst (generate_simple_booking_pdf example_booking ''./confirm.pdf'' example_world)
       = Inr ''./confirm.pdf''"
    by (simp add: generate_unfold example_world_def eval_defs)
qed

text \<open>
  C4. A result that the call returns is the output path it was given, unchanged; and
  when \<open>ensure_dir\<close> and the writing of the page by \<open>pdf.output\<close> both succeed, the call
  does return, with that path.
\<close>

theorem returns_output_path:
  "(fst (generate_simple_booking_pdf r p w) = Inr x \<longrightarrow> x = p)
   \<and> (fst (ensure_dir p w) = Inr () \<and> booking_page r = Inr pdf
        \<and> fst (output_pdf pdf p ''F'' (snd (ensure_dir p w))) = Inr ()
      \<longrightarrow> fst (generate_simple_booking_pdf r p w) = Inr p)"
proof (intro conjI impI)
  assume "fst (generate_simple_booking_pdf r p w) = Inr x"
  then show "x = p"
    by (rule generate_Inr)
next
  assume a: "fst (ensure_dir p w) = Inr () \<and> booking_page r = Inr pdf
        \<and> fst (output_pdf pdf p ''F'' (snd (ensure_dir p w))) = Inr ()"
  then have "projr (booking_page r) = pdf" by simp
  with a show "fst (generate_simple_booking_pdf r p w) = Inr p"
    by (cases "ensure_dir p w"; cases "output_pdf pdf p ''F'' (snd (ensure_dir p w))")
       (simp add: generate_unfold)
qed

theorem returns_output_path_witness:
  "fst (ensure_dir ''out/confirm.pdf'' example_world) = Inr ()
   \<and> booking_page example_booking = Inr (projr (booking_page example_booking))
   \<and> fst (output_pdf (projr (booking_page example_booking)) ''out/confirm.pdf'' ''F''
        (snd (ensure_dir ''out/confirm.pdf'' example_world))) = Inr ()
   \<and> fst (generate_simple_booking_pdf example_booking ''out/confirm.pdf'' example_world)
       = Inr ''out/confirm.pdf''"
proof -
  have 1: "fst (ensure_dir ''out/confirm.pdf'' example_world) = Inr ()"
    by (simp add: example_world_def eval_defs)
  have 2: "booking_page example_booking = Inr (projr (booking_page example_booking))"
    by (rule booking_page_Inr)
  have 3: "fst (output_pdf (projr (booking_page example_booking)) ''out/confirm.pdf'' ''F''
        (snd (ensure_dir ''out/confirm.pdf'' example_world))) = Inr ()"
    by (simp add: example_world_def eval_defs)
  from returns_output_path [of example_booking "''out/confirm.pdf''" example_world _
      "projr (booking_page example_booking)"] 1 2 3
  show ?thesis by blast
qed




text \<open>
  C6, as the code has it. Either the call succeeds and the complete document is in the
  file at the output path; or it fails and no file was created or changed (only
  directories may be new); or it fails because the device cut the write short, and the
  file at the output path holds the first bytes of the document.
\<close>

theorem outcome_on_output_file:
  "fst (generate_simple_booking_pdf r p w) = Inr p
     \<and> read_file (snd (generate_simple_booking_pdf r p w)) p = Some (Pdf (projr (booking_page r)))
   \<or> (\<exists>e. fst (generate_simple_booking_pdf r p w) = Inl e
         \<and> files_untouched w (snd (generate_simple_booking_pdf r p w)))
   \<or> (\<exists>e n. fst (generate_simple_booking_pdf r p w) = Inl e \<and> write_fault w = Some n
         \<and> read_file (snd (generate_simple_booking_pdf r p w)) p
             = Some (PartialPdf (projr (booking_page r)) n))"
proof (cases rule: generate_cases [of p w r])
  case (dir_failed e w1)
  from ensure_dir_frame [of w p] dir_failed(1) have "files_untouched w w1"
    by (simp add: only_new_dirs_files)
  with dir_failed(2) show ?thesis by simp
next
  case (succeeded w1 w2)
  from succeeded(3) have "fst (generate_simple_booking_pdf r p w) = Inr p" by simp
  then show ?thesis
    using generate_Inr_read by blast
next
  case (write_failed e w1 w2)
  from ensure_dir_frame [of w p] write_failed(1) have f: "only_new_dirs w w1" by simp
  from write_failed(2) show ?thesis
  proof (cases rule: output_pdf_cases)
    case (open_failed err)
    with f write_failed(3) show ?thesis
      by (simp add: only_new_dirs_files)
  next
    case (written q w')
    with write_failed(2) show ?thesis by simp
  next
    case (cut_short q w' n)
    have "stat w2 p = Inr (q, File True (PartialPdf (projr (booking_page r)) n))"
      using cut_short(1) by (rule stat_written) (simp_all add: cut_short(4))
    then have "read_file (snd (generate_simple_booking_pdf r p w)) p
        = Some (PartialPdf (projr (booking_page r)) n)"
      by (simp add: write_failed(3) read_file_stat)
    moreover from f cut_short(2) have "write_fault w = Some n"
      by (simp add: only_new_dirs_def)
    ultimately show ?thesis
      using write_failed(3) by simp
  qed
qed

text \<open>
  C6 as stated fails: with \<open>/srv/out/confirm.pdf\<close> there already and the device
  failing after 512 bytes, the call raises, and the file no longer holds what it held:
  it holds the first 512 bytes of the new document.
\<close>

theorem failed_write_leaves_partial_file:
  "read_file full_disk_world ''out/confirm.pdf'' = Some (Bytes ''an earlier confirmation'')
   \<and> fst (generate_simple_booking_pdf example_booking ''out/confirm.pdf'' full_disk_world)
       = Inl (OSError ENOSPC [])
   \<and> read_file (snd (generate_simple_booking_pdf example_booking ''out/confirm.pdf''
        full_disk_world)) ''out/confirm.pdf''
       = Some (PartialPdf (projr (booking_page example_booking)) 512)"
proof (intro conjI)
  show "read_file full_disk_world ''out/confirm.pdf'' = Some (Bytes ''an earlier confirmation'')"
    by (simp add: full_disk_world_def eval_defs)
  have g: "generate_simple_booking_pdf example_booking ''out/confirm.pdf'' full_disk_world
      = (Inl (OSError ENOSPC []),
         print (''Error generating PDF: '' @ str_exception (OSError ENOSPC []))
          (full_disk_world\<lparr>nodes := (nodes full_disk_world)
          ([''srv'', ''out'', ''confirm.pdf''] \<mapsto>
             File True (PartialPdf (projr (booking_page example_booking)) 512))\<rparr>))"
    by (simp add: generate_unfold full_disk_ensure_dir full_disk_output)
  show "fst (generate_simple_booking_pdf example_booking ''out/confirm.pdf'' full_disk_world)
       = Inl (OSError ENOSPC [])"
    by (simp add: g)
  show "read_file (snd (generate_simple_booking_pdf example_booking ''out/confirm.pdf''
        full_disk_world)) ''out/confirm.pdf''
       = Some (PartialPdf (projr (booking_page example_booking)) 512)"
    unfolding g by (simp add: full_disk_world_def read_file_def stat_def null_byte_def start_dir_def step_def)
qed





text \<open>
  C9. For an output path without a separator (a bare file name, which may well be
  non-empty), the parent directory derived is the empty string, which does not exist for
  \<open>os.path.exists\<close>; \<open>os.makedirs\<close> of it raises FileNotFoundError, so the call
  raises in \<open>ensure_dir\<close> and leaves the world as it was: nothing is drawn, written or
  printed.
\<close>

theorem bare_filename_raises:
  assumes "sep \<notin> set p"
  shows "dirname p = [] \<and> \<not> path_exists w (dirname p)
     \<and> ensure_dir p w = (Inl (OSError ENOENT []), w)
     \<and> generate_simple_booking_pdf r p w = (Inl (OSError ENOENT []), w)"
  using assms
  by (simp add: dirname_sep_free path_exists_empty ensure_dir_bare generate_bare)

theorem bare_filename_raises_witness:
  "sep \<notin> set ''confirm.pdf'' \<and> ''confirm.pdf'' \<noteq> [] \<and> dirname ''confirm.pdf'' = []
   \<and> generate_simple_booking_pdf example_booking ''confirm.pdf'' example_world
       = (Inl (OSError ENOENT []), example_world)"
proof -
  have "sep \<notin> set ''confirm.pdf''" by simp
  from bare_filename_raises [OF this] show ?thesis by simp
qed

text \<open>
  C10. Two records that agree on the eight recognized keys give the same page, and the
  same outcome of the call (result, file system and printed lines) for every output path
  and world: keys other than the eight have no effect.
\<close>

theorem unrecognized_keys_ignored:
  assumes "\<forall>k \<in> set recognized_keys. r1 k = r2 k"
  shows "booking_page r1 = booking_page r2
     \<and> generate_simple_booking_pdf r1 p w = generate_simple_booking_pdf r2 p w"
proof -
  from assms have "dict_get r1 k d = dict_get r2 k d" if "k \<in> set recognized_keys" for k d
    using that by (simp add: dict_get_def)
  then have eq: "booking_page r1 = booking_page r2"
    by (simp add: booking_page_eq recognized_keys_def)
  show ?thesis
    unfolding generate_simple_booking_pdf_def eq by simp
qed

theorem unrecognized_keys_ignored_witness:
  "example_booking ''internalNote'' \<noteq> (example_booking(''internalNote'' \<mapsto> PStr ''paid in cash'')) ''internalNote''
   \<and> booking_page example_booking = booking_page (example_booking(''internalNote'' \<mapsto> PStr ''paid in cash''))
   \<and> generate_simple_booking_pdf example_booking ''out/confirm.pdf'' example_world
       = generate_simple_booking_pdf (example_booking(''internalNote'' \<mapsto> PStr ''paid in cash''))
           ''out/confirm.pdf'' example_world"
proof -
  have "\<forall>k \<in> set recognized_keys.
      example_booking k = (example_booking(''internalNote'' \<mapsto> PStr ''paid in cash'')) k"
    by (simp add: recognized_keys_def)
  from unrecognized_keys_ignored [OF this]
  have "booking_page example_booking
        = booking_page (example_booking(''internalNote'' \<mapsto> PStr ''paid in cash''))
     \<and> generate_simple_booking_pdf example_booking ''out/confirm.pdf'' example_world
        = generate_simple_booking_pdf (example_booking(''internalNote'' \<mapsto> PStr ''paid in cash''))
            ''out/confirm.pdf'' example_world" .
  moreover have "example_booking ''internalNote''
      \<noteq> (example_booking(''internalNote'' \<mapsto> PStr ''paid in cash'')) ''internalNote''"
    by (simp add: example_booking_def)
  ultimately show ?thesis
    by blast
qed

end
